theory Spec2Isabelle
  imports Complex_Main
begin

section \<open>GridWorldEnv: the grid-only mode of \<^verbatim>\<open>RL_Agent/env.py\<close>\<close>

text \<open>
  The development embeds the class \<^verbatim>\<open>GridWorldEnv\<close> in its grid-only mode
  (\<^verbatim>\<open>use_coppeliasim = False\<close>, the constructor's default), where the branches
  guarded by \<^verbatim>\<open>self.use_coppeliasim and not self.simulation_mode\<close> are never
  entered. Python's unbounded integers are \<^typ>\<open>int\<close>. Python's floats are idealised
  as \<^typ>\<open>real\<close>: every float constant of the source (\<^verbatim>\<open>0.125\<close>, \<^verbatim>\<open>2.5\<close>,
  \<^verbatim>\<open>0.1\<close>, \<^verbatim>\<open>0.3\<close>, ...) is the rational it denotes, and arithmetic is exact.
\<close>

subsection \<open>Errors\<close>

text \<open>
  The only exception the grid-only code can raise is the \<^verbatim>\<open>ValueError\<close> of
  \<^verbatim>\<open>random.randint(a, b)\<close> on an empty range.
\<close>

datatype error = ValueError

subsection \<open>Coordinate mapper\<close>

type_synonym cell = "int \<times> int"

text \<open>
  Python's built-in \<^verbatim>\<open>round(x)\<close> of one float argument: the nearest integer, a tie
  going to the even neighbour.
\<close>

definition py_round :: "real \<Rightarrow> int" where
  "py_round r =
     (let f = \<lfloor>r\<rfloor>; d = r - of_int f
      in if d < 1 / 2 then f
         else if 1 / 2 < d then f + 1
         else if even f then f else f + 1)"

text \<open>\<^verbatim>\<open>move_to_grid(x, y)\<close>: \<^verbatim>\<open>None\<close> is \<^term>\<open>None\<close>.\<close>

definition move_to_grid :: "real \<Rightarrow> real \<Rightarrow> cell option" where
  "move_to_grid x0 y0 =
     (let x = x0 + 2.5;
          y = y0 + 2.5
      in if x > 5 \<or> x < 0 \<or> y > 5 \<or> y < 0 then None
         else
           (let x_grid = py_round (x / 0.125);
                y_grid = py_round (y / 0.125)
            in if x_grid > 40 \<or> x_grid < 0 \<or> y_grid > 40 \<or> y_grid < 0 then None
               else Some (x_grid, y_grid)))"

text \<open>\<^verbatim>\<open>grid_to_coordinates(x_grid, y_grid)\<close>.\<close>

definition grid_to_coordinates :: "int \<Rightarrow> int \<Rightarrow> (real \<times> real \<times> real) option" where
  "grid_to_coordinates x_grid y_grid =
     (if x_grid > 40 \<or> x_grid < 0 \<or> y_grid > 40 \<or> y_grid < 0 then None
      else
        (let x = of_int x_grid * 0.125;
             y = of_int y_grid * 0.125;
             x = x - 2.5;
             y = y - 2.5
         in Some (x, y, 0.05)))"

subsection \<open>Actions\<close>

definition UP :: int where "UP = 0"
definition DOWN :: int where "DOWN = 1"
definition LEFT :: int where "LEFT = 2"
definition RIGHT :: int where "RIGHT = 3"
definition STAY :: int where "STAY = 4"

text \<open>The dictionary \<^verbatim>\<open>ACTION_NAMES\<close>.\<close>

definition ACTION_NAMES :: "int \<rightharpoonup> string" where
  "ACTION_NAMES =
     [UP \<mapsto> ''UP'', DOWN \<mapsto> ''DOWN'', LEFT \<mapsto> ''LEFT'', RIGHT \<mapsto> ''RIGHT'', STAY \<mapsto> ''STAY'']"

subsection \<open>The environment object\<close>

text \<open>
  The attributes of a \<^verbatim>\<open>GridWorldEnv\<close> instance that the grid-only code reads or
  writes. \<^verbatim>\<open>grid_dimensions\<close> is the two-element list \<^verbatim>\<open>[width, height]\<close>;
  \<^verbatim>\<open>self.x\<close> and \<^verbatim>\<open>self.y\<close> are the fields \<open>self_x\<close> and \<open>self_y\<close>.
  \<^verbatim>\<open>redspots\<close> is a Python list of cells, in insertion order.
\<close>

record env =
  grid_dimensions :: "int \<times> int"
  max_steps :: int
  total_steps :: int
  redspots :: "cell list"
  goal :: cell
  self_x :: int
  self_y :: int
  init_loc :: cell
  current_location :: cell

text \<open>The \<^verbatim>\<open>info\<close> dictionary returned by \<^verbatim>\<open>step\<close>.\<close>

record info =
  manhattan_distance :: int
  action_name :: string
  manhattan_improvement :: int
  obstacle_proximity :: real

subsection \<open>Observation encoder\<close>

text \<open>
  The colour a cell gets in \<^verbatim>\<open>get_observation\<close>: the obstacle test comes first.
\<close>

definition cell_color :: "env \<Rightarrow> cell \<Rightarrow> real" where
  "cell_color s c =
     (if c \<in> set (redspots s) then 1.0
      else if c = goal s then 2.0
      else 0.0)"

text \<open>
  \<^verbatim>\<open>get_observation\<close>: the outer loop runs over \<open>dy\<close>, the inner one over \<open>dx\<close>,
  both in \<^verbatim>\<open>range(-2, 3)\<close>; each pass appends one colour.
\<close>

definition get_observation :: "env \<Rightarrow> real list" where
  "get_observation s =
     (let (agent_x, agent_y) = current_location s;
          visible_colors =
            concat (map (\<lambda>dy. map (\<lambda>dx.
              (let x_pos = max 0 (min (fst (grid_dimensions s) - 1) (agent_x + dx));
                   y_pos = max 0 (min (snd (grid_dimensions s) - 1) (agent_y + dy))
               in cell_color s (x_pos, y_pos))) [-2..2]) [-2..2]);
          (goal_x, goal_y) = goal s;
          coordinates_info = [of_int agent_x, of_int agent_y, of_int goal_x, of_int goal_y]
      in visible_colors @ coordinates_info)"

subsection \<open>Obstacle proximity\<close>

text \<open>
  One pass of the inner loop body of \<^verbatim>\<open>calculate_obstacle_proximity\<close>.
  \<^verbatim>\<open>min_distance\<close> starts as \<^verbatim>\<open>float('inf')\<close>, which is \<^term>\<open>None\<close> here;
  \<^verbatim>\<open>min(inf, d)\<close> is \<open>d\<close>.
\<close>

definition proximity_cell :: "env \<Rightarrow> cell \<Rightarrow> int \<Rightarrow> int \<Rightarrow> int option \<Rightarrow> int option" where
  "proximity_cell s agent dx dy min_distance =
     (let x_pos = fst agent + dx;
          y_pos = snd agent + dy
      in if x_pos < 0 \<or> x_pos \<ge> fst (grid_dimensions s) \<or>
            y_pos < 0 \<or> y_pos \<ge> snd (grid_dimensions s) then min_distance
         else if (x_pos, y_pos) \<in> set (redspots s) then
           (let distance = \<bar>dx\<bar> + \<bar>dy\<bar>
            in Some (case min_distance of None \<Rightarrow> distance | Some m \<Rightarrow> min m distance))
         else min_distance)"

text \<open>The two nested loops, \<open>dx\<close> outside and \<open>dy\<close> inside, both over \<^verbatim>\<open>range(-4, 5)\<close>.\<close>

definition proximity_scan :: "env \<Rightarrow> cell \<Rightarrow> int option" where
  "proximity_scan s agent =
     fold (\<lambda>dx. fold (\<lambda>dy. proximity_cell s agent dx dy) [-4..4]) [-4..4] None"

definition calculate_obstacle_proximity :: "env \<Rightarrow> real" where
  "calculate_obstacle_proximity s =
     (case proximity_scan s (current_location s) of
        None \<Rightarrow> 0.0
      | Some min_distance \<Rightarrow> max 0.0 (1.0 - (of_int min_distance * 0.2)))"

subsection \<open>Episode dynamics\<close>

text \<open>The position update of \<^verbatim>\<open>step\<close>: an \<^verbatim>\<open>if\<close>/\<^verbatim>\<open>elif\<close> chain with no \<^verbatim>\<open>else\<close>.\<close>

definition move :: "env \<Rightarrow> int \<Rightarrow> env" where
  "move s action =
     (if action = UP then s\<lparr>self_y := max 0 (self_y s - 1)\<rparr>
      else if action = DOWN then s\<lparr>self_y := min (snd (grid_dimensions s) - 1) (self_y s + 1)\<rparr>
      else if action = LEFT then s\<lparr>self_x := max 0 (self_x s - 1)\<rparr>
      else if action = RIGHT then s\<lparr>self_x := min (fst (grid_dimensions s) - 1) (self_x s + 1)\<rparr>
      else s)"

text \<open>The condition of the wall penalty, read on the state after the move.\<close>

definition hits_wall :: "env \<Rightarrow> int \<Rightarrow> bool" where
  "hits_wall s action \<longleftrightarrow>
     (action = UP \<and> self_y s = 0) \<or>
     (action = DOWN \<and> self_y s = snd (grid_dimensions s) - 1) \<or>
     (action = LEFT \<and> self_x s = 0) \<or>
     (action = RIGHT \<and> self_x s = fst (grid_dimensions s) - 1)"

text \<open>The reward and the \<^verbatim>\<open>done\<close> flag before the time limit is applied.\<close>

definition reward_rule :: "env \<Rightarrow> int \<Rightarrow> int \<Rightarrow> int \<Rightarrow> real \<Rightarrow> real \<times> bool" where
  "reward_rule s action old_manhattan new_manhattan proximity =
     (let new_position = current_location s
      in if new_position = goal s then (1.0, True)
         else if new_position \<in> set (redspots s) then (-20.0, True)
         else
           (let reward = (if new_manhattan < old_manhattan then 0.1
                          else if new_manhattan > old_manhattan then -0.1
                          else -0.05);
                obstacle_penalty = - proximity * 0.3;
                reward = reward + obstacle_penalty;
                reward = (if hits_wall s action then reward - 0.2 else reward)
            in (reward, False)))"

text \<open>
  \<^verbatim>\<open>step(action)\<close> returns the updated object together with the tuple
  \<^verbatim>\<open>(observation, reward, done, info)\<close>. The body of the source is wrapped in
  \<^verbatim>\<open>try\<close>/\<^verbatim>\<open>except Exception\<close>; with an integer action no statement of the
  grid-only path raises, so the handler's fallback tuple is never produced and the
  result is always \<^term>\<open>Inr\<close>.
\<close>

definition step :: "env \<Rightarrow> int \<Rightarrow> error + (env \<times> real list \<times> real \<times> bool \<times> info)" where
  "step s0 action =
     (let s1 = s0\<lparr>total_steps := total_steps s0 + 1\<rparr>;
          old_position = current_location s1;
          old_manhattan = \<bar>fst old_position - fst (goal s1)\<bar> + \<bar>snd old_position - snd (goal s1)\<bar>;
          s2 = move s1 action;
          s3 = s2\<lparr>current_location := (self_x s2, self_y s2)\<rparr>;
          new_position = current_location s3;
          new_manhattan = \<bar>fst new_position - fst (goal s3)\<bar> + \<bar>snd new_position - snd (goal s3)\<bar>;
          proximity = calculate_obstacle_proximity s3;
          (reward, done) = reward_rule s3 action old_manhattan new_manhattan proximity;
          done = (if total_steps s3 \<ge> max_steps s3 then True else done);
          state = get_observation s3;
          info = \<lparr>manhattan_distance = new_manhattan,
                  action_name = (case ACTION_NAMES action of None \<Rightarrow> ''UNKNOWN'' | Some n \<Rightarrow> n),
                  manhattan_improvement = old_manhattan - new_manhattan,
                  obstacle_proximity = proximity\<rparr>
      in Inr (s3, state, reward, done, info))"

text \<open>
  \<^verbatim>\<open>reset()\<close> returns the updated object and the observation. The test that
  \<^verbatim>\<open>self.goal\<close> is a pair always succeeds on an object of type \<^typ>\<open>env\<close>, so
  the default goal is never installed.
\<close>

definition reset :: "env \<Rightarrow> error + (env \<times> real list)" where
  "reset s0 =
     (let (ix, iy) = init_loc s0;
          s1 = s0\<lparr>self_x := ix, self_y := iy\<rparr>;
          s2 = s1\<lparr>current_location := (self_x s1, self_y s1)\<rparr>;
          s3 = s2\<lparr>total_steps := 0\<rparr>;
          obs = get_observation s3
      in Inr (s3, obs))"

subsection \<open>World generation\<close>

text \<open>
  Python's global random generator is not part of the repository. It is modelled as the
  list of raw draws still to come: \<^verbatim>\<open>random.randint(a, b)\<close> raises
  \<^verbatim>\<open>ValueError\<close> on an empty range, and otherwise consumes one draw \<open>d\<close> and returns
  \<open>a + d mod (b - a + 1)\<close>, so that every value of \<open>[a, b]\<close> is a possible result. The
  result \<^term>\<open>None\<close> means that the draws ran out: the computation has not returned
  on the randomness supplied. A seed fixes one list of draws; the properties below hold
  for all of them.
\<close>

definition randint :: "int \<Rightarrow> int \<Rightarrow> nat list \<Rightarrow> (error + int \<times> nat list) option" where
  "randint a b draws =
     (if b < a then Some (Inl ValueError)
      else case draws of
             [] \<Rightarrow> None
           | d # rest \<Rightarrow> Some (Inr (a + int (d mod nat (b - a + 1)), rest)))"

lemma randint_shorter:
  "randint a b draws = Some (Inr (v, rest)) \<Longrightarrow> length rest < length draws"
  by (auto simp: randint_def split: if_splits list.splits)

text \<open>
  The three rejection loops of \<^verbatim>\<open>initialize_grid_environment\<close>. Each pass draws
  \<open>x\<close>, then \<open>y\<close>. The first loop runs while \<^verbatim>\<open>len(self.redspots) < num_obstacles\<close>
  and appends a cell that is not yet in the list; the other two are
  \<^verbatim>\<open>while True\<close> loops left by \<^verbatim>\<open>break\<close>.
\<close>

function gen_obstacles ::
  "int \<times> int \<Rightarrow> int \<Rightarrow> cell list \<Rightarrow> nat list \<Rightarrow> (error + cell list \<times> nat list) option" where
  "gen_obstacles dims num_obstacles spots draws =
     (if int (length spots) < num_obstacles then
        (case randint 0 (fst dims - 1) draws of
           None \<Rightarrow> None
         | Some (Inl e) \<Rightarrow> Some (Inl e)
         | Some (Inr (x, draws1)) \<Rightarrow>
             (case randint 0 (snd dims - 1) draws1 of
                None \<Rightarrow> None
              | Some (Inl e) \<Rightarrow> Some (Inl e)
              | Some (Inr (y, draws2)) \<Rightarrow>
                  gen_obstacles dims num_obstacles
                    (if (x, y) \<notin> set spots then spots @ [(x, y)] else spots) draws2))
      else Some (Inr (spots, draws)))"
  by pat_completeness auto
termination
  by (relation "measure (\<lambda>(dims, n, spots, draws). length draws)")
    (auto dest!: randint_shorter)

function gen_goal ::
  "int \<times> int \<Rightarrow> cell list \<Rightarrow> nat list \<Rightarrow> (error + cell \<times> nat list) option" where
  "gen_goal dims spots draws =
     (case randint 0 (fst dims - 1) draws of
        None \<Rightarrow> None
      | Some (Inl e) \<Rightarrow> Some (Inl e)
      | Some (Inr (goal_x, draws1)) \<Rightarrow>
          (case randint 0 (snd dims - 1) draws1 of
             None \<Rightarrow> None
           | Some (Inl e) \<Rightarrow> Some (Inl e)
           | Some (Inr (goal_y, draws2)) \<Rightarrow>
               if (goal_x, goal_y) \<notin> set spots then Some (Inr ((goal_x, goal_y), draws2))
               else gen_goal dims spots draws2))"
  by pat_completeness auto
termination
  by (relation "measure (\<lambda>(dims, spots, draws). length draws)")
    (auto dest!: randint_shorter)

function gen_agent ::
  "int \<times> int \<Rightarrow> cell list \<Rightarrow> cell \<Rightarrow> nat list \<Rightarrow> (error + cell \<times> nat list) option" where
  "gen_agent dims spots g draws =
     (case randint 0 (fst dims - 1) draws of
        None \<Rightarrow> None
      | Some (Inl e) \<Rightarrow> Some (Inl e)
      | Some (Inr (agent_x, draws1)) \<Rightarrow>
          (case randint 0 (snd dims - 1) draws1 of
             None \<Rightarrow> None
           | Some (Inl e) \<Rightarrow> Some (Inl e)
           | Some (Inr (agent_y, draws2)) \<Rightarrow>
               if (agent_x, agent_y) \<notin> set spots \<and> (agent_x, agent_y) \<noteq> g
               then Some (Inr ((agent_x, agent_y), draws2))
               else gen_agent dims spots g draws2))"
  by pat_completeness auto
termination
  by (relation "measure (\<lambda>(dims, spots, g, draws). length draws)")
    (auto dest!: randint_shorter)

declare gen_obstacles.simps [simp del] gen_goal.simps [simp del] gen_agent.simps [simp del]

text \<open>
  \<^verbatim>\<open>initialize_grid_environment\<close> on an object whose \<^verbatim>\<open>grid_dimensions\<close> are set;
  it returns the object with the layout assigned, and the draws that are left.
\<close>

definition initialize_grid_environment :: "env \<Rightarrow> nat list \<Rightarrow> (error + env \<times> nat list) option" where
  "initialize_grid_environment s draws =
     (case randint 20 50 draws of
        None \<Rightarrow> None
      | Some (Inl e) \<Rightarrow> Some (Inl e)
      | Some (Inr (num_obstacles, draws1)) \<Rightarrow>
          (case gen_obstacles (grid_dimensions s) num_obstacles [] draws1 of
             None \<Rightarrow> None
           | Some (Inl e) \<Rightarrow> Some (Inl e)
           | Some (Inr (spots, draws2)) \<Rightarrow>
               (case gen_goal (grid_dimensions s) spots draws2 of
                  None \<Rightarrow> None
                | Some (Inl e) \<Rightarrow> Some (Inl e)
                | Some (Inr (g, draws3)) \<Rightarrow>
                    (case gen_agent (grid_dimensions s) spots g draws3 of
                       None \<Rightarrow> None
                     | Some (Inl e) \<Rightarrow> Some (Inl e)
                     | Some (Inr ((agent_x, agent_y), draws4)) \<Rightarrow>
                         Some (Inr (s\<lparr>redspots := spots, goal := g,
                                      self_x := agent_x, self_y := agent_y,
                                      init_loc := (agent_x, agent_y),
                                      current_location := (agent_x, agent_y)\<rparr>, draws4))))))"

subsection \<open>Bezier path engine\<close>

text \<open>
  \<^verbatim>\<open>scipy.special.comb(n, i)\<close>, a library function outside the repository: the
  binomial coefficient as a float. The loop calls it with \<open>0 \<le> i \<le> n\<close> only.
\<close>

definition comb :: "int \<Rightarrow> nat \<Rightarrow> real" where
  "comb n i = real (nat n choose i)"

text \<open>
  One pass of the loop of \<^verbatim>\<open>bezier_recursive\<close>. Numpy arrays are lists of reals;
  \<^verbatim>\<open>ctrlPts\<close> is the flattened list of control points, seven numbers each, and
  \<^verbatim>\<open>ctrlPts[i * 7:i * 7 + 3]\<close> is the position of point \<open>i\<close>. The slice has three
  entries for every \<open>i\<close> the loop visits, so the element-wise sum never meets arrays of
  different shapes.
\<close>

definition bezier_term ::
  "real list \<Rightarrow> real \<Rightarrow> int \<Rightarrow> nat \<Rightarrow> real list \<times> real \<Rightarrow> real list \<times> real" where
  "bezier_term ctrlPts t n i acc =
     (let (point, total_weight) = acc;
          binomial_coeff = comb n i;
          weight = binomial_coeff * ((1 - t) ^ nat (n - int i)) * (t ^ i);
          point_coords = take 3 (drop (i * 7) ctrlPts);
          point = map2 (+) point (map (\<lambda>c. weight * c) point_coords);
          total_weight = total_weight + weight
      in (point, total_weight))"

text \<open>
  \<^verbatim>\<open>bezier_recursive(ctrlPts, t)\<close>; the attribute \<^verbatim>\<open>self.initial_z\<close> is the first
  argument.
\<close>

definition bezier_recursive :: "real \<Rightarrow> real list \<Rightarrow> real \<Rightarrow> real list" where
  "bezier_recursive initial_z ctrlPts t =
     (let n = int (length ctrlPts) div 7 - 1;
          (point, total_weight) = fold (bezier_term ctrlPts t n) [0..<nat (n + 1)] ([0, 0, 0], 0);
          point = (if total_weight > 0 then map (\<lambda>c. c / total_weight) point else point);
          point = point[2 := initial_z]
      in point)"

text \<open>\<^verbatim>\<open>np.linalg.norm\<close> of a vector.\<close>

definition norm3 :: "real list \<Rightarrow> real" where
  "norm3 v = sqrt (sum_list (map (\<lambda>c. c\<^sup>2) v))"

text \<open>
  \<^verbatim>\<open>calculate_total_length(ctrl_points, subdivisions)\<close>: the loop runs over
  \<^verbatim>\<open>range(1, subdivisions + 1)\<close> and carries \<^verbatim>\<open>total_length\<close> and
  \<^verbatim>\<open>prev_point\<close>.
\<close>

definition length_term ::
  "real \<Rightarrow> real list \<Rightarrow> nat \<Rightarrow> nat \<Rightarrow> real \<times> real list \<Rightarrow> real \<times> real list" where
  "length_term initial_z ctrl_points subdivisions i acc =
     (let (total_length, prev_point) = acc;
          t = real i / real subdivisions;
          curr_point = bezier_recursive initial_z ctrl_points t;
          total_length = total_length + norm3 (map2 (-) curr_point prev_point);
          prev_point = curr_point
      in (total_length, prev_point))"

definition calculate_total_length :: "real \<Rightarrow> real list \<Rightarrow> nat \<Rightarrow> real" where
  "calculate_total_length initial_z ctrl_points subdivisions =
     (let total_length = 0.0;
          prev_point = bezier_recursive initial_z ctrl_points 0
      in fst (fold (length_term initial_z ctrl_points subdivisions) [1..<subdivisions + 1]
                (total_length, prev_point)))"

subsection \<open>Notions used to state the properties\<close>

text \<open>The Manhattan distance of the glossary.\<close>

definition manhattan :: "cell \<Rightarrow> cell \<Rightarrow> int" where
  "manhattan a b = \<bar>fst a - fst b\<bar> + \<bar>snd a - snd b\<bar>"

text \<open>A cell lies in \<open>[0, width) \<times> [0, height)\<close>.\<close>

definition in_bounds :: "env \<Rightarrow> cell \<Rightarrow> bool" where
  "in_bounds s c \<longleftrightarrow>
     0 \<le> fst c \<and> fst c < fst (grid_dimensions s) \<and> 0 \<le> snd c \<and> snd c < snd (grid_dimensions s)"

text \<open>
  The Manhattan distance from the agent to the nearest obstacle, over all obstacles of
  the layout (meaningful when there is at least one).
\<close>

definition nearest_obstacle_distance :: "env \<Rightarrow> int" where
  "nearest_obstacle_distance s = Min (manhattan (current_location s) ` set (redspots s))"

text \<open>
  The test that makes \<^verbatim>\<open>calculate_obstacle_proximity\<close> look at an offset: the cell
  at that offset from the agent is inside the grid and is an obstacle.
\<close>

definition obstacle_at :: "env \<Rightarrow> cell \<Rightarrow> int \<times> int \<Rightarrow> bool" where
  "obstacle_at s agent d \<longleftrightarrow>
     0 \<le> fst agent + fst d \<and> fst agent + fst d < fst (grid_dimensions s) \<and>
     0 \<le> snd agent + snd d \<and> snd agent + snd d < snd (grid_dimensions s) \<and>
     (fst agent + fst d, snd agent + snd d) \<in> set (redspots s)"

text \<open>
  The Manhattan distance from \<^verbatim>\<open>current_location\<close> to the goal, as \<^verbatim>\<open>step\<close>
  computes it before and after the move, and the object as \<^verbatim>\<open>step\<close> leaves it.
\<close>

definition goal_distance :: "env \<Rightarrow> int" where
  "goal_distance s =
     \<bar>fst (current_location s) - fst (goal s)\<bar> + \<bar>snd (current_location s) - snd (goal s)\<bar>"

definition after_move :: "env \<Rightarrow> int \<Rightarrow> env" where
  "after_move s a =
     (let s2 = move (s\<lparr>total_steps := total_steps s + 1\<rparr>) a
      in s2\<lparr>current_location := (self_x s2, self_y s2)\<rparr>)"

text \<open>
  A family of concrete environments for the instances below: the grid size, the
  obstacles, the goal and the agent's cell are given; the step limit is 100 and no step
  has been taken.
\<close>

definition example_env :: "int \<times> int \<Rightarrow> cell list \<Rightarrow> cell \<Rightarrow> cell \<Rightarrow> env" where
  "example_env dims obstacles g pos =
     \<lparr>grid_dimensions = dims, max_steps = 100, total_steps = 0, redspots = obstacles,
      goal = g, self_x = fst pos, self_y = snd pos, init_loc = pos, current_location = pos\<rparr>"

text \<open>A cell lies inside a grid of the given dimensions.\<close>

definition cell_within :: "int \<times> int \<Rightarrow> cell \<Rightarrow> bool" where
  "cell_within dims c \<longleftrightarrow> 0 \<le> fst c \<and> fst c < fst dims \<and> 0 \<le> snd c \<and> snd c < snd dims"

text \<open>
  The flattened control points of the curve from \<open>(0, 0, 0)\<close> to \<open>(1, 0, 0)\<close>, with
  arbitrary orientation entries \<open>q0\<close> and \<open>q1\<close> (four numbers each).
\<close>

definition segment :: "real list \<Rightarrow> real list \<Rightarrow> real list" where
  "segment q0 q1 = [0, 0, 0] @ q0 @ [1, 0, 0] @ q1"

text \<open>
  A list of draws on which generation on a 40 by 40 grid returns: 25 obstacles, one
  repeated obstacle draw, one rejected goal draw and one rejected agent draw.
\<close>

definition example_draws :: "nat list" where
  "example_draws =
     [5, 0, 3, 1, 3, 2, 3, 3, 3, 4, 3, 5, 3, 6, 3, 7, 3, 8, 3, 9,
      3, 10, 3, 11, 3, 4, 3, 12, 3, 13, 3, 14, 3, 15, 3, 16, 3, 17, 3, 18,
      3, 19, 3, 20, 3, 21, 3, 22, 3, 23, 3, 24, 3, 7, 3, 38, 39, 38, 39, 41,
      42, 99]"

text \<open>The environment that generation builds from these draws on a 40 by 40 grid.\<close>

definition generated_env :: env where
  "generated_env =
     example_env (40, 40)
       [(0, 3), (1, 3), (2, 3), (3, 3), (4, 3), (5, 3), (6, 3), (7, 3), (8, 3), (9, 3),
        (10, 3), (11, 3), (12, 3), (13, 3), (14, 3), (15, 3), (16, 3), (17, 3), (18, 3),
        (19, 3), (20, 3), (21, 3), (22, 3), (23, 3), (24, 3)]
       (38, 39) (1, 2)"

section \<open>Properties\<close>

subsection \<open>A generated layout\<close>

lemma generated_env_generated:
  "initialize_grid_environment (example_env (40, 40) [] (0, 0) (0, 0)) example_draws
     = Some (Inr (generated_env, [99]))"
  by code_simp

subsection \<open>The proximity scan\<close>

lemma proximity_cell_alt:
  "proximity_cell s agent dx dy md =
     (if obstacle_at s agent (dx, dy)
      then Some (case md of None \<Rightarrow> \<bar>dx\<bar> + \<bar>dy\<bar> | Some m \<Rightarrow> min m (\<bar>dx\<bar> + \<bar>dy\<bar>))
      else md)"
  by (auto simp: proximity_cell_def obstacle_at_def Let_def)

text \<open>Two nested loops visit the pairs of the product list, in its order.\<close>

lemma fold_nested_product:
  "fold (\<lambda>a. fold (g a) ys) xs acc = fold (\<lambda>(a, b). g a b) (List.product xs ys) acc"
proof (induction xs arbitrary: acc)
  case Nil
  show ?case by simp
next
  case (Cons a xs)
  have "fold (\<lambda>(a, b). g a b) (map (Pair a) ys) acc = fold (g a) ys acc"
    by (simp add: fold_map comp_def)
  with Cons show ?case by simp
qed

lemma scan_None:
  "fold (\<lambda>(dx, dy). proximity_cell s agent dx dy) ps acc = None
     \<longleftrightarrow> acc = None \<and> (\<forall>p \<in> set ps. \<not> obstacle_at s agent p)"
  by (induction ps arbitrary: acc) (auto simp: proximity_cell_alt split: if_splits)

lemma scan_Some_lower:
  "fold (\<lambda>(dx, dy). proximity_cell s agent dx dy) ps acc = Some m \<Longrightarrow>
     (\<forall>m0. acc = Some m0 \<longrightarrow> m \<le> m0) \<and>
     (\<forall>p \<in> set ps. obstacle_at s agent p \<longrightarrow> m \<le> \<bar>fst p\<bar> + \<bar>snd p\<bar>)"
proof (induction ps arbitrary: acc)
  case Nil
  then show ?case by simp
next
  case (Cons p ps)
  obtain dx dy where p: "p = (dx, dy)" by (cases p)
  from Cons.prems have
    "fold (\<lambda>(dx, dy). proximity_cell s agent dx dy) ps (proximity_cell s agent dx dy acc) = Some m"
    by (simp add: p)
  from Cons.IH [OF this] show ?case
    by (auto simp: p proximity_cell_alt split: if_splits option.splits)
qed

lemma scan_Some_attained:
  "fold (\<lambda>(dx, dy). proximity_cell s agent dx dy) ps acc = Some m \<Longrightarrow>
     acc = Some m \<or> (\<exists>p \<in> set ps. obstacle_at s agent p \<and> m = \<bar>fst p\<bar> + \<bar>snd p\<bar>)"
proof (induction ps arbitrary: acc)
  case Nil
  then show ?case by simp
next
  case (Cons p ps)
  obtain dx dy where p: "p = (dx, dy)" by (cases p)
  from Cons.prems have
    "fold (\<lambda>(dx, dy). proximity_cell s agent dx dy) ps (proximity_cell s agent dx dy acc) = Some m"
    by (simp add: p)
  from Cons.IH [OF this] show ?case
    by (auto simp: p proximity_cell_alt min_def split: if_splits option.splits)
qed

lemma proximity_scan_product:
  "proximity_scan s agent =
     fold (\<lambda>(dx, dy). proximity_cell s agent dx dy) (List.product [-4..4] [-4..4]) None"
  unfolding proximity_scan_def by (rule fold_nested_product)

lemma set_window: "set (List.product [-4..4] [-4..4]) = {-4..4} \<times> {-4..4 :: int}"
  by (simp only: set_product set_upto)

lemma proximity_scan_None:
  "proximity_scan s agent = None \<longleftrightarrow>
     (\<forall>dx \<in> {-4..4}. \<forall>dy \<in> {-4..4}. \<not> obstacle_at s agent (dx, dy))"
  unfolding proximity_scan_product scan_None set_window by auto

lemma proximity_scan_Some:
  assumes "proximity_scan s agent = Some m"
  shows "(\<exists>dx \<in> {-4..4}. \<exists>dy \<in> {-4..4}. obstacle_at s agent (dx, dy) \<and> m = \<bar>dx\<bar> + \<bar>dy\<bar>)"
    and "\<forall>dx \<in> {-4..4}. \<forall>dy \<in> {-4..4}. obstacle_at s agent (dx, dy) \<longrightarrow> m \<le> \<bar>dx\<bar> + \<bar>dy\<bar>"
proof -
  from assms have f: "fold (\<lambda>(dx, dy). proximity_cell s agent dx dy)
      (List.product [-4..4] [-4..4]) None = Some m"
    by (simp only: proximity_scan_product)
  from scan_Some_attained [OF f, unfolded set_window]
  show "\<exists>dx \<in> {-4..4}. \<exists>dy \<in> {-4..4}. obstacle_at s agent (dx, dy) \<and> m = \<bar>dx\<bar> + \<bar>dy\<bar>"
    by auto
  from scan_Some_lower [OF f, unfolded set_window]
  show "\<forall>dx \<in> {-4..4}. \<forall>dy \<in> {-4..4}. obstacle_at s agent (dx, dy) \<longrightarrow> m \<le> \<bar>dx\<bar> + \<bar>dy\<bar>"
    by auto
qed

lemma proximity_scan_nonneg: "proximity_scan s agent = Some m \<Longrightarrow> 0 \<le> m"
  using proximity_scan_Some(1) [of s agent m] by auto

lemma calculate_obstacle_proximity_range:
  "0 \<le> calculate_obstacle_proximity s \<and> calculate_obstacle_proximity s \<le> 1"
  by (auto simp: calculate_obstacle_proximity_def dest: proximity_scan_nonneg split: option.splits)

subsection \<open>Coordinate mapper round trip\<close>

lemma py_round_of_int: "py_round (of_int n) = n"
  by (simp add: py_round_def)

lemma cell_roundtrip_arith: "(of_int n * 0.125 - 2.5 + 2.5) / 0.125 = (of_int n :: real)"
  by simp

text \<open>
  Claim C10. For every grid cell \<open>(x, y)\<close> with \<open>0 \<le> x \<le> 40\<close> and \<open>0 \<le> y \<le> 40\<close>,
  \<^verbatim>\<open>grid_to_coordinates\<close> returns a triple (never \<^verbatim>\<open>None\<close>), and
  \<^verbatim>\<open>move_to_grid\<close> applied to its first two components returns exactly \<open>(x, y)\<close>.
  Every intermediate value is a multiple of \<open>1/8\<close> of absolute value at most \<open>40\<close>, which
  binary floating point represents exactly, so the float computation follows the real
  one step by step.
\<close>

theorem move_to_grid_grid_to_coordinates:
  assumes "0 \<le> x" "x \<le> 40" "0 \<le> y" "y \<le> 40"
  shows "\<exists>cx cy cz. grid_to_coordinates x y = Some (cx, cy, cz)
           \<and> move_to_grid cx cy = Some (x, y)"
proof -
  let ?cx = "of_int x * 0.125 - 2.5 :: real"
  let ?cy = "of_int y * 0.125 - 2.5 :: real"
  have g: "grid_to_coordinates x y = Some (?cx, ?cy, 0.05)"
    using assms by (simp add: grid_to_coordinates_def)
  have rx: "py_round ((?cx + 2.5) / 0.125) = x"
    by (simp only: cell_roundtrip_arith py_round_of_int)
  have ry: "py_round ((?cy + 2.5) / 0.125) = y"
    by (simp only: cell_roundtrip_arith py_round_of_int)
  have bx: "\<not> (?cx + 2.5 > 5 \<or> ?cx + 2.5 < 0)"
    using assms by simp
  have by': "\<not> (?cy + 2.5 > 5 \<or> ?cy + 2.5 < 0)"
    using assms by simp
  have m: "move_to_grid ?cx ?cy = Some (x, y)"
    unfolding move_to_grid_def Let_def rx ry using bx by' assms by simp
  from g m show ?thesis by blast
qed

theorem move_to_grid_grid_to_coordinates_witness:
  "(0::int) \<le> 7 \<and> (7::int) \<le> 40 \<and> (0::int) \<le> 40 \<and> (40::int) \<le> 40
     \<and> (\<exists>cx cy cz. grid_to_coordinates 7 40 = Some (cx, cy, cz)
           \<and> move_to_grid cx cy = Some (7, 40))"
  using move_to_grid_grid_to_coordinates [of 7 40] by simp

subsection \<open>Obstacle proximity and the nearest obstacle\<close>

lemma obstacle_at_in_bounds:
  assumes "\<forall>c \<in> set (redspots s). in_bounds s c"
  shows "obstacle_at s agent (dx, dy) \<longleftrightarrow> (fst agent + dx, snd agent + dy) \<in> set (redspots s)"
  using assms by (auto simp: obstacle_at_def in_bounds_def)

lemma window_hit:
  assumes inb: "\<forall>c \<in> set (redspots s). in_bounds s c"
    and c: "c \<in> set (redspots s)"
    and near: "\<bar>fst c - fst agent\<bar> \<le> 4" "\<bar>snd c - snd agent\<bar> \<le> 4"
  shows "fst c - fst agent \<in> {-4..4} \<and> snd c - snd agent \<in> {-4..4}
     \<and> obstacle_at s agent (fst c - fst agent, snd c - snd agent)"
proof -
  have "(fst agent + (fst c - fst agent), snd agent + (snd c - snd agent)) = c"
    by simp
  with c have "obstacle_at s agent (fst c - fst agent, snd c - snd agent)"
    by (simp add: obstacle_at_in_bounds [OF inb])
  with near show ?thesis by auto
qed

lemma far_manhattan:
  "\<not> (\<bar>fst c - fst agent\<bar> \<le> 4 \<and> \<bar>snd c - snd agent\<bar> \<le> 4) \<Longrightarrow> 5 \<le> manhattan agent c"
  by (auto simp: manhattan_def)

lemma proximity_scan_None_far:
  assumes inb: "\<forall>c \<in> set (redspots s). in_bounds s c"
    and scan: "proximity_scan s agent = None"
    and c: "c \<in> set (redspots s)"
  shows "5 \<le> manhattan agent c"
proof (rule far_manhattan, rule notI)
  assume "\<bar>fst c - fst agent\<bar> \<le> 4 \<and> \<bar>snd c - snd agent\<bar> \<le> 4"
  then have "fst c - fst agent \<in> {-4..4} \<and> snd c - snd agent \<in> {-4..4}
     \<and> obstacle_at s agent (fst c - fst agent, snd c - snd agent)"
    using window_hit [OF inb c] by blast
  with scan show False
    unfolding proximity_scan_None by blast
qed

lemma proximity_scan_Some_obstacle:
  assumes inb: "\<forall>c \<in> set (redspots s). in_bounds s c"
    and scan: "proximity_scan s agent = Some m"
  shows "\<exists>c \<in> set (redspots s). manhattan agent c = m"
proof -
  from proximity_scan_Some(1) [OF scan] obtain dx dy
    where hit: "obstacle_at s agent (dx, dy)" and m: "m = \<bar>dx\<bar> + \<bar>dy\<bar>"
    by blast
  from hit have "(fst agent + dx, snd agent + dy) \<in> set (redspots s)"
    by (simp add: obstacle_at_def)
  moreover have "manhattan agent (fst agent + dx, snd agent + dy) = m"
    by (simp add: manhattan_def m)
  ultimately show ?thesis by blast
qed

lemma proximity_scan_Some_le:
  assumes inb: "\<forall>c \<in> set (redspots s). in_bounds s c"
    and scan: "proximity_scan s agent = Some m"
    and c: "c \<in> set (redspots s)"
  shows "m \<le> manhattan agent c \<or> 5 \<le> manhattan agent c"
proof (cases "\<bar>fst c - fst agent\<bar> \<le> 4 \<and> \<bar>snd c - snd agent\<bar> \<le> 4")
  case True
  then have w: "fst c - fst agent \<in> {-4..4} \<and> snd c - snd agent \<in> {-4..4}
     \<and> obstacle_at s agent (fst c - fst agent, snd c - snd agent)"
    using window_hit [OF inb c] by blast
  with proximity_scan_Some(2) [OF scan]
  have "m \<le> \<bar>fst c - fst agent\<bar> + \<bar>snd c - snd agent\<bar>" by blast
  then have "m \<le> manhattan agent c" by (simp add: manhattan_def abs_minus_commute)
  then show ?thesis ..
next
  case False
  then show ?thesis using far_manhattan by blast
qed

lemma proximity_value_far: "5 \<le> m \<Longrightarrow> max 0 (1 - real_of_int m * 0.2) = 0"
  by simp

lemma calculate_obstacle_proximity_Min:
  assumes inb: "\<forall>c \<in> set (redspots s). in_bounds s c"
    and ne: "redspots s \<noteq> []"
  shows "calculate_obstacle_proximity s =
           max 0 (1 - real_of_int (nearest_obstacle_distance s) * 0.2)"
proof -
  let ?A = "current_location s"
  let ?D = "manhattan ?A ` set (redspots s)"
  let ?M = "nearest_obstacle_distance s"
  have fin: "finite ?D" and neD: "?D \<noteq> {}" using ne by auto
  have M_in: "?M \<in> ?D" unfolding nearest_obstacle_distance_def by (rule Min_in [OF fin neD])
  have M_le: "\<And>c. c \<in> set (redspots s) \<Longrightarrow> ?M \<le> manhattan ?A c"
    unfolding nearest_obstacle_distance_def using fin by (simp add: Min_le)
  from M_in obtain c0 where c0: "c0 \<in> set (redspots s)" and Mc0: "?M = manhattan ?A c0"
    by auto
  show ?thesis
  proof (cases "proximity_scan s ?A")
    case None
    from proximity_scan_None_far [OF inb None c0] Mc0 have "5 \<le> ?M" by simp
    then have "max 0 (1 - real_of_int ?M * 0.2) = 0" by (rule proximity_value_far)
    with None show ?thesis by (simp add: calculate_obstacle_proximity_def)
  next
    case (Some m)
    from proximity_scan_Some_obstacle [OF inb Some] M_le have Mm: "?M \<le> m" by auto
    have val: "calculate_obstacle_proximity s = max 0 (1 - real_of_int m * 0.2)"
      using Some by (simp add: calculate_obstacle_proximity_def)
    from proximity_scan_Some_le [OF inb Some c0] Mc0 have "m \<le> ?M \<or> 5 \<le> ?M" by simp
    then show ?thesis
    proof
      assume "m \<le> ?M"
      with Mm have "m = ?M" by simp
      with val show ?thesis by simp
    next
      assume five: "5 \<le> ?M"
      with Mm have "5 \<le> m" by simp
      then have "max 0 (1 - real_of_int m * 0.2) = 0" by (rule proximity_value_far)
      moreover from five have "max 0 (1 - real_of_int ?M * 0.2) = 0" by (rule proximity_value_far)
      ultimately show ?thesis using val by simp
    qed
  qed
qed

lemma calculate_obstacle_proximity_none_near:
  assumes far: "\<forall>c \<in> set (redspots s). 8 < manhattan (current_location s) c"
  shows "calculate_obstacle_proximity s = 0"
proof (cases "proximity_scan s (current_location s)")
  case None
  then show ?thesis by (simp add: calculate_obstacle_proximity_def)
next
  case (Some m)
  from proximity_scan_Some(1) [OF Some] obtain dx dy
    where d: "dx \<in> {-4..4}" "dy \<in> {-4..4}" and hit: "obstacle_at s (current_location s) (dx, dy)"
    by blast
  let ?c = "(fst (current_location s) + dx, snd (current_location s) + dy)"
  from hit have "?c \<in> set (redspots s)" by (simp add: obstacle_at_def)
  with far have "8 < manhattan (current_location s) ?c" by blast
  then have "8 < \<bar>dx\<bar> + \<bar>dy\<bar>" by (simp add: manhattan_def)
  with d have False by auto
  then show ?thesis ..
qed

text \<open>
  Claim C4. When every obstacle lies inside the grid (as in every generated layout),
  \<^verbatim>\<open>calculate_obstacle_proximity\<close> returns \<open>0\<close> if no obstacle is within Manhattan
  distance 8 of the agent; otherwise it returns \<open>max(0, 1 - 0.2 d)\<close> for the Manhattan
  distance \<open>d\<close> from the agent to the nearest obstacle; a nearest obstacle at distance 1
  gives exactly \<open>0.8\<close>; and the result always lies in \<open>[0, 1]\<close>. The agent's position
  is arbitrary.
\<close>

theorem calculate_obstacle_proximity_spec:
  assumes inb: "\<forall>c \<in> set (redspots s). in_bounds s c"
  shows "((\<forall>c \<in> set (redspots s). 8 < manhattan (current_location s) c)
            \<longrightarrow> calculate_obstacle_proximity s = 0)
       \<and> ((\<exists>c \<in> set (redspots s). manhattan (current_location s) c \<le> 8)
            \<longrightarrow> calculate_obstacle_proximity s
                  = max 0 (1 - 0.2 * real_of_int (nearest_obstacle_distance s)))
       \<and> (redspots s \<noteq> [] \<and> nearest_obstacle_distance s = 1
            \<longrightarrow> calculate_obstacle_proximity s = 0.8)
       \<and> 0 \<le> calculate_obstacle_proximity s \<and> calculate_obstacle_proximity s \<le> 1"
proof (intro conjI impI)
  assume "\<forall>c \<in> set (redspots s). 8 < manhattan (current_location s) c"
  then show "calculate_obstacle_proximity s = 0"
    by (rule calculate_obstacle_proximity_none_near)
next
  assume "\<exists>c \<in> set (redspots s). manhattan (current_location s) c \<le> 8"
  then have "redspots s \<noteq> []" by auto
  from calculate_obstacle_proximity_Min [OF inb this]
  show "calculate_obstacle_proximity s
          = max 0 (1 - 0.2 * real_of_int (nearest_obstacle_distance s))"
    by (simp add: mult.commute)
next
  assume a: "redspots s \<noteq> [] \<and> nearest_obstacle_distance s = 1"
  with calculate_obstacle_proximity_Min [OF inb] show "calculate_obstacle_proximity s = 0.8"
    by simp
next
  show "0 \<le> calculate_obstacle_proximity s" "calculate_obstacle_proximity s \<le> 1"
    using calculate_obstacle_proximity_range by blast+
qed

theorem calculate_obstacle_proximity_spec_witness:
  "in_bounds (example_env (40, 40) [(30, 30)] (4, 4) (0, 0)) (30, 30)
   \<and> 8 < manhattan (0, 0) (30, 30)
   \<and> calculate_obstacle_proximity (example_env (40, 40) [(30, 30)] (4, 4) (0, 0)) = 0
   \<and> in_bounds (example_env (5, 5) [(2, 2)] (4, 4) (0, 0)) (2, 2)
   \<and> manhattan (0, 0) (2, 2) \<le> 8
   \<and> nearest_obstacle_distance (example_env (5, 5) [(2, 2)] (4, 4) (0, 0)) = 4
   \<and> calculate_obstacle_proximity (example_env (5, 5) [(2, 2)] (4, 4) (0, 0)) = 0.2
   \<and> nearest_obstacle_distance (example_env (5, 5) [(2, 2)] (4, 4) (2, 1)) = 1
   \<and> calculate_obstacle_proximity (example_env (5, 5) [(2, 2)] (4, 4) (2, 1)) = 0.8"
  using calculate_obstacle_proximity_spec [of "example_env (40, 40) [(30, 30)] (4, 4) (0, 0)"]
    calculate_obstacle_proximity_spec [of "example_env (5, 5) [(2, 2)] (4, 4) (0, 0)"]
    calculate_obstacle_proximity_spec [of "example_env (5, 5) [(2, 2)] (4, 4) (2, 1)"]
  by (simp add: example_env_def in_bounds_def nearest_obstacle_distance_def manhattan_def)

subsection \<open>One step of the episode\<close>

lemma move_frame [simp]:
  "goal (move s a) = goal s" "redspots (move s a) = redspots s"
  "grid_dimensions (move s a) = grid_dimensions s" "max_steps (move s a) = max_steps s"
  "total_steps (move s a) = total_steps s" "init_loc (move s a) = init_loc s"
  "current_location (move s a) = current_location s"
  by (simp_all add: move_def)

lemma step_eq:
  "step s a =
     Inr (after_move s a, get_observation (after_move s a),
          fst (reward_rule (after_move s a) a (goal_distance s) (goal_distance (after_move s a))
                 (calculate_obstacle_proximity (after_move s a))),
          (snd (reward_rule (after_move s a) a (goal_distance s) (goal_distance (after_move s a))
                 (calculate_obstacle_proximity (after_move s a)))
             \<or> max_steps (after_move s a) \<le> total_steps (after_move s a)),
          \<lparr>manhattan_distance = goal_distance (after_move s a),
            action_name = (case ACTION_NAMES a of None \<Rightarrow> ''UNKNOWN'' | Some n \<Rightarrow> n),
            manhattan_improvement = goal_distance s - goal_distance (after_move s a),
            obstacle_proximity = calculate_obstacle_proximity (after_move s a)\<rparr>)"
  by (simp add: step_def after_move_def Let_def goal_distance_def case_prod_beta)

lemma step_unfold:
  assumes "step s a = Inr (s', obs, r, d, i)"
  shows "s' = after_move s a"
    and "obs = get_observation s'"
    and "r = fst (reward_rule s' a (goal_distance s) (goal_distance s')
                   (calculate_obstacle_proximity s'))"
    and "d \<longleftrightarrow> snd (reward_rule s' a (goal_distance s) (goal_distance s')
                   (calculate_obstacle_proximity s')) \<or> max_steps s' \<le> total_steps s'"
  using assms unfolding step_eq by auto

lemma after_move_frame:
  "goal (after_move s a) = goal s" "redspots (after_move s a) = redspots s"
  "grid_dimensions (after_move s a) = grid_dimensions s"
  "max_steps (after_move s a) = max_steps s" "init_loc (after_move s a) = init_loc s"
  "total_steps (after_move s a) = total_steps s + 1"
  by (simp_all add: after_move_def Let_def)

lemma step_returns: "\<exists>s' obs r d i. step s a = Inr (s', obs, r, d, i)"
  unfolding step_eq by blast

lemma reward_rule_goal:
  "current_location s = goal s \<Longrightarrow> reward_rule s a om nm p = (1, True)"
  by (simp add: reward_rule_def)

lemma reward_rule_obstacle:
  "current_location s \<noteq> goal s \<Longrightarrow> current_location s \<in> set (redspots s)
     \<Longrightarrow> reward_rule s a om nm p = (-20, True)"
  by (simp add: reward_rule_def)

lemma reward_rule_shaping:
  "current_location s \<noteq> goal s \<Longrightarrow> current_location s \<notin> set (redspots s)
     \<Longrightarrow> reward_rule s a om nm p =
           ((if nm < om then 0.1 else if om < nm then - 0.1 else - 0.05)
              + (- 0.3 * p) + (if hits_wall s a then - 0.2 else 0), False)"
  by (simp add: reward_rule_def Let_def)

lemma reward_rule_shaping_bounds:
  assumes "current_location s \<noteq> goal s" "current_location s \<notin> set (redspots s)"
    and "0 \<le> p" "p \<le> 1"
  shows "- 0.6 \<le> fst (reward_rule s a om nm p) \<and> fst (reward_rule s a om nm p) \<le> 0.1"
  using assms(3,4) unfolding reward_rule_shaping [OF assms(1,2)] by (simp split: if_splits)

text \<open>
  Claim C1. For every call of \<^verbatim>\<open>step\<close>, the returned reward is \<open>+1\<close> with
  \<^verbatim>\<open>done\<close> set exactly when the position after the move is the goal; when the goal
  is not an obstacle, the reward is \<open>-20\<close> with \<^verbatim>\<open>done\<close> set exactly when the
  position after the move is an obstacle cell, so the two terminal cases exclude each
  other; and the goal rule has priority: a position that is the goal and also an
  obstacle is rewarded as the goal.
\<close>

theorem step_terminal_rewards:
  assumes st: "step s a = Inr (s', obs, r, d, i)"
  shows "((r = 1 \<and> d) \<longleftrightarrow> current_location s' = goal s)
       \<and> (goal s \<notin> set (redspots s) \<longrightarrow>
            ((r = - 20 \<and> d) \<longleftrightarrow> current_location s' \<in> set (redspots s)))
       \<and> (current_location s' = goal s \<and> current_location s' \<in> set (redspots s) \<longrightarrow> r = 1 \<and> d)"
proof -
  let ?p = "calculate_obstacle_proximity s'"
  let ?rr = "reward_rule s' a (goal_distance s) (goal_distance s') ?p"
  have fr: "goal s' = goal s" "redspots s' = redspots s"
    unfolding step_unfold(1) [OF st] by (simp_all add: after_move_frame)
  have r: "r = fst ?rr" by (rule step_unfold(3) [OF st])
  have d: "d \<longleftrightarrow> snd ?rr \<or> max_steps s' \<le> total_steps s'" by (rule step_unfold(4) [OF st])
  have p: "0 \<le> ?p" "?p \<le> 1" using calculate_obstacle_proximity_range by blast+
  consider (goal) "current_location s' = goal s'"
    | (obstacle) "current_location s' \<noteq> goal s'" "current_location s' \<in> set (redspots s')"
    | (shaping) "current_location s' \<noteq> goal s'" "current_location s' \<notin> set (redspots s')"
    by blast
  then show ?thesis
  proof cases
    case goal
    then have "?rr = (1, True)" by (rule reward_rule_goal)
    with r d goal fr show ?thesis by simp
  next
    case obstacle
    then have "?rr = (- 20, True)" by (rule reward_rule_obstacle)
    with r d obstacle fr show ?thesis by simp
  next
    case shaping
    from reward_rule_shaping_bounds [OF shaping p]
    have "- 0.6 \<le> r \<and> r \<le> 0.1" unfolding r .
    then have "r \<noteq> 1" "r \<noteq> - 20" by auto
    with shaping fr show ?thesis by simp
  qed
qed

theorem step_terminal_rewards_witness:
  "(\<exists>s' obs i. step (example_env (5, 5) [(2, 2)] (4, 4) (3, 4)) RIGHT = Inr (s', obs, 1, True, i)
       \<and> current_location s' = (4, 4))
   \<and> (4, 4) \<notin> set [(2, 2) :: cell]
   \<and> (\<exists>s' obs i. step (example_env (5, 5) [(2, 2)] (4, 4) (2, 1)) DOWN = Inr (s', obs, - 20, True, i)
       \<and> current_location s' = (2, 2))"
proof -
  let ?e1 = "example_env (5, 5) [(2, 2)] (4, 4) (3, 4)"
  let ?e2 = "example_env (5, 5) [(2, 2)] (4, 4) (2, 1)"
  obtain s1 o1 r1 d1 i1 where st1: "step ?e1 RIGHT = Inr (s1, o1, r1, d1, i1)"
    using step_returns by blast
  obtain s2 o2 r2 d2 i2 where st2: "step ?e2 DOWN = Inr (s2, o2, r2, d2, i2)"
    using step_returns by blast
  have c1: "current_location s1 = (4, 4)"
    unfolding step_unfold(1) [OF st1]
    by (simp add: after_move_def move_def example_env_def UP_def DOWN_def LEFT_def RIGHT_def)
  have c2: "current_location s2 = (2, 2)"
    unfolding step_unfold(1) [OF st2]
    by (simp add: after_move_def move_def example_env_def UP_def DOWN_def LEFT_def RIGHT_def)
  from step_terminal_rewards [OF st1] c1 have "r1 = 1 \<and> d1"
    by (simp add: example_env_def)
  moreover from step_terminal_rewards [OF st2] c2 have "r2 = - 20 \<and> d2"
    by (simp add: example_env_def)
  ultimately show ?thesis using st1 st2 c1 c2 by simp
qed

text \<open>
  Claim C5. For every call of \<^verbatim>\<open>step\<close>, if the step counter after the step has
  reached \<^verbatim>\<open>max_steps\<close>, the returned \<^verbatim>\<open>done\<close> flag is true, whichever
  reward rule matched and whatever the reward. The instance below is a step that matches
  the shaping rule.
\<close>

theorem step_time_limit:
  assumes "step s a = Inr (s', obs, r, d, i)" and "max_steps s' \<le> total_steps s'"
  shows "d"
  using step_unfold(4) [OF assms(1)] assms(2) by simp

theorem step_time_limit_witness:
  "\<exists>s' obs r i. step ((example_env (5, 5) [(2, 2)] (4, 4) (0, 0))\<lparr>max_steps := 1\<rparr>) STAY
        = Inr (s', obs, r, True, i)
      \<and> max_steps s' \<le> total_steps s' \<and> current_location s' \<noteq> goal s'
      \<and> current_location s' \<notin> set (redspots s')"
proof -
  let ?e = "(example_env (5, 5) [(2, 2)] (4, 4) (0, 0))\<lparr>max_steps := 1\<rparr>"
  obtain s' obs r d i where st: "step ?e STAY = Inr (s', obs, r, d, i)"
    using step_returns by blast
  have s': "s' = after_move ?e STAY" by (rule step_unfold(1) [OF st])
  have lim: "max_steps s' \<le> total_steps s'"
    unfolding s' by (simp add: after_move_frame example_env_def)
  have pos: "current_location s' \<noteq> goal s' \<and> current_location s' \<notin> set (redspots s')"
    unfolding s'
    by (simp add: after_move_def move_def example_env_def UP_def DOWN_def LEFT_def RIGHT_def STAY_def)
  from step_time_limit [OF st lim] have "d = True" by simp
  with st lim pos show ?thesis by auto
qed

subsection \<open>The shaping reward and the wall penalty\<close>

lemmas action_defs = UP_def DOWN_def LEFT_def RIGHT_def STAY_def

text \<open>
  On a step that ends neither on the goal nor on an obstacle the reward is the sum of the
  distance term, the proximity term and the wall term. The wall term is charged when the
  position after the move is on the border the action points to.
\<close>

lemma reward_of_step_shaping:
  assumes st: "step s a = Inr (s', obs, r, d, i)"
    and nt: "current_location s' \<noteq> goal s'" "current_location s' \<notin> set (redspots s')"
  shows "r = (if goal_distance s' < goal_distance s then 0.1
              else if goal_distance s < goal_distance s' then - 0.1 else - 0.05)
             + (- 0.3 * calculate_obstacle_proximity s')
             + (if hits_wall s' a then - 0.2 else 0)"
  unfolding step_unfold(3) [OF st] reward_rule_shaping [OF nt] by simp

text \<open>
  Claim C2 says that on a non-terminal step the reward is the distance term
  (\<open>+0.1\<close>, \<open>-0.1\<close> or \<open>-0.05\<close>) plus \<open>-0.3\<close> times the obstacle proximity, plus a
  \<open>-0.2\<close> wall penalty included if and only if the move was blocked by the grid
  boundary, the position staying unchanged. The source reads the wall test on the
  position after the move, so the penalty is also charged when the agent merely arrives
  at a border cell: in the generated layout above the agent starts at \<open>(1, 2)\<close>;
  \<^verbatim>\<open>LEFT\<close> moves it to \<open>(0, 2)\<close>, nothing is clamped, the step is not terminal, and
  the reward is \<open>-0.1 - 0.3 * 0.8 - 0.2\<close>, the last term being the wall penalty.
\<close>

theorem step_wall_penalty_on_arrival:
  "step generated_env LEFT =
     Inr (generated_env\<lparr>total_steps := 1, self_x := 0, current_location := (0, 2)\<rparr>,
          [0, 0, 0, 0, 0, 0, 0, 0, 0, 0, 0, 0, 0, 0, 0, 1, 1, 1, 1, 1, 0, 0, 0, 0, 0,
           0, 2, 38, 39],
          - 0.1 + - 0.3 * 0.8 + - 0.2, False,
          \<lparr>manhattan_distance = 75, action_name = ''LEFT'', manhattan_improvement = - 1,
            obstacle_proximity = 0.8\<rparr>)"
  by code_simp

text \<open>
  The scenario of the same claim that the source does satisfy: at \<open>(0, 0)\<close> the action
  \<^verbatim>\<open>LEFT\<close> is clamped, the agent stays, and the reward includes \<open>-0.2\<close>.
\<close>

lemma step_left_at_origin:
  "step (example_env (5, 5) [(2, 2)] (4, 4) (0, 0)) LEFT =
     Inr ((example_env (5, 5) [(2, 2)] (4, 4) (0, 0))\<lparr>total_steps := 1\<rparr>,
          [0, 0, 0, 0, 0, 0, 0, 0, 0, 0, 0, 0, 0, 0, 0, 0, 0, 0, 0, 0, 0, 0, 0, 0, 1, 0, 0, 4, 4],
          - 0.05 + - 0.3 * 0.2 + - 0.2, False,
          \<lparr>manhattan_distance = 8, action_name = ''LEFT'', manhattan_improvement = 0,
            obstacle_proximity = 0.2\<rparr>)"
  by code_simp

subsection \<open>Actions outside the enumeration\<close>

text \<open>
  Claim C3, as stated, says that \<^verbatim>\<open>step\<close> fails with an explicit error on an action
  outside \<open>0..4\<close>. The source has no such check: in the generated layout above, action
  \<open>7\<close> returns an ordinary tuple, the agent does not move, and the action is named
  \<^verbatim>\<open>UNKNOWN\<close>.
\<close>

theorem step_invalid_action_counterexample:
  "step generated_env 7 =
     Inr (generated_env\<lparr>total_steps := 1\<rparr>,
          [0, 0, 0, 0, 0, 0, 0, 0, 0, 0, 0, 0, 0, 0, 0, 1, 1, 1, 1, 1, 0, 0, 0, 0, 0,
           1, 2, 38, 39],
          - 0.29, False,
          \<lparr>manhattan_distance = 74, action_name = ''UNKNOWN'', manhattan_improvement = 0,
            obstacle_proximity = 0.8\<rparr>)"
  by code_simp

lemma move_invalid: "a \<notin> {UP, DOWN, LEFT, RIGHT, STAY} \<Longrightarrow> move s a = s"
  by (simp add: move_def)

lemma move_STAY: "move s STAY = s"
  by (simp add: move_def action_defs)

lemma hits_wall_invalid: "a \<notin> {UP, DOWN, LEFT, RIGHT, STAY} \<Longrightarrow> \<not> hits_wall s a"
  by (auto simp: hits_wall_def)

lemma hits_wall_STAY: "\<not> hits_wall s STAY"
  by (simp add: hits_wall_def action_defs)

lemma reward_rule_no_wall:
  "\<not> hits_wall s a \<Longrightarrow> \<not> hits_wall s b \<Longrightarrow> reward_rule s a om nm p = reward_rule s b om nm p"
  by (simp add: reward_rule_def Let_def)

lemma ACTION_NAMES_invalid: "a \<notin> {UP, DOWN, LEFT, RIGHT, STAY} \<Longrightarrow> ACTION_NAMES a = None"
  by (simp add: ACTION_NAMES_def)

lemma ACTION_NAMES_STAY: "ACTION_NAMES STAY = Some ''STAY''"
  by (simp add: ACTION_NAMES_def)

text \<open>
  Claim C3, amended. For every integer action outside \<open>{UP, DOWN, LEFT, RIGHT, STAY}\<close>,
  \<^verbatim>\<open>step\<close> returns normally: the position is unchanged, the step counter is
  incremented, and the returned tuple is the one \<^verbatim>\<open>STAY\<close> returns, except that
  the action name in \<^verbatim>\<open>info\<close> is \<^verbatim>\<open>UNKNOWN\<close>.
\<close>

theorem step_invalid_action_is_noop:
  assumes inv: "a \<notin> {UP, DOWN, LEFT, RIGHT, STAY}"
  shows "\<exists>s' obs r d i.
           step s a = Inr (s', obs, r, d, i)
         \<and> step s STAY = Inr (s', obs, r, d, i\<lparr>action_name := ''STAY''\<rparr>)
         \<and> action_name i = ''UNKNOWN''
         \<and> self_x s' = self_x s \<and> self_y s' = self_y s
         \<and> total_steps s' = total_steps s + 1"
proof -
  have am: "after_move s a = after_move s STAY"
    by (simp add: after_move_def move_invalid [OF inv] move_STAY)
  have rr: "reward_rule (after_move s STAY) a om nm p = reward_rule (after_move s STAY) STAY om nm p"
    for om nm p
    by (rule reward_rule_no_wall [OF hits_wall_invalid [OF inv] hits_wall_STAY])
  have pos: "self_x (after_move s STAY) = self_x s \<and> self_y (after_move s STAY) = self_y s"
    by (simp add: after_move_def move_STAY Let_def)
  show ?thesis
    unfolding step_eq am rr
    by (simp add: ACTION_NAMES_invalid [OF inv] ACTION_NAMES_STAY pos after_move_frame)
qed

theorem step_invalid_action_is_noop_witness:
  "7 \<notin> {UP, DOWN, LEFT, RIGHT, STAY}
   \<and> (\<exists>s' obs r d i.
         step (example_env (5, 5) [(2, 2)] (4, 4) (0, 0)) 7 = Inr (s', obs, r, d, i)
       \<and> step (example_env (5, 5) [(2, 2)] (4, 4) (0, 0)) STAY
            = Inr (s', obs, r, d, i\<lparr>action_name := ''STAY''\<rparr>)
       \<and> action_name i = ''UNKNOWN''
       \<and> self_x s' = 0 \<and> self_y s' = 0 \<and> total_steps s' = 1)"
proof -
  have inv: "7 \<notin> {UP, DOWN, LEFT, RIGHT, STAY}" by (simp add: action_defs)
  from step_invalid_action_is_noop [OF inv, of "example_env (5, 5) [(2, 2)] (4, 4) (0, 0)"]
  show ?thesis using inv by (simp add: example_env_def)
qed

subsection \<open>Observation\<close>

lemma concat_map_nth:
  assumes "i < length ys" "j < length xs"
  shows "concat (map (\<lambda>y. map (f y) xs) ys) ! (length xs * i + j) = f (ys ! i) (xs ! j)"
  using assms
proof (induction ys arbitrary: i)
  case Nil
  then show ?case by simp
next
  case (Cons y ys)
  show ?case
  proof (cases i)
    case 0
    with Cons.prems show ?thesis by (simp add: nth_append)
  next
    case (Suc k)
    with Cons.prems have k: "k < length ys" by simp
    have "length xs * i + j = length xs + (length xs * k + j)" by (simp add: Suc)
    then have "concat (map (\<lambda>y. map (f y) xs) (y # ys)) ! (length xs * i + j)
        = concat (map (\<lambda>y. map (f y) xs) ys) ! (length xs * k + j)"
      by (simp add: nth_append)
    also have "\<dots> = f (ys ! k) (xs ! j)" by (rule Cons.IH [OF k Cons.prems(2)])
    finally show ?thesis by (simp add: Suc)
  qed
qed

lemma length_window: "length [-2..2::int] = 5"
  by (simp add: length_upto)

lemma nth_window: "k < 5 \<Longrightarrow> [-2..2::int] ! k = int k - 2"
  by (subst nth_upto) simp_all

lemma get_observation_split:
  "get_observation s =
     concat (map (\<lambda>dy. map (\<lambda>dx.
        cell_color s (max 0 (min (fst (grid_dimensions s) - 1) (fst (current_location s) + dx)),
                      max 0 (min (snd (grid_dimensions s) - 1) (snd (current_location s) + dy))))
        [-2..2]) [-2..2])
     @ [of_int (fst (current_location s)), of_int (snd (current_location s)),
        of_int (fst (goal s)), of_int (snd (goal s))]"
  by (simp only: get_observation_def Let_def case_prod_beta)

lemma length_colors: "length (concat (map (\<lambda>y. map (f y) [-2..2::int]) [-2..2::int])) = 25"
  by (simp add: length_concat comp_def length_window sum_list_triv)

lemma drop_length_append: "drop (length xs) (xs @ ys) = ys"
  by simp

lemma length_get_observation: "length (get_observation s) = 29"
  unfolding get_observation_split by (simp only: length_append length_colors) simp

text \<open>
  Claim C6. For every state, also with the agent on the border of the grid, the
  observation has length \<open>29 = 5\<^sup>2 + 4\<close>; entry \<open>5 i + j\<close> (row \<open>i\<close>, column \<open>j\<close>, both
  below 5) labels the cell at offset \<open>(j - 2, i - 2)\<close> from the agent, clamped to the
  grid: \<open>1\<close> for an obstacle, else \<open>2\<close> for the goal, else \<open>0\<close>; the last four
  entries are the agent's and the goal's coordinates; and the observations returned by
  \<^verbatim>\<open>reset\<close> and \<^verbatim>\<open>step\<close> are this observation of the state they leave.
\<close>

theorem get_observation_layout:
  "length (get_observation s) = 29
   \<and> (\<forall>i<5. \<forall>j<5.
        get_observation s ! (5 * i + j) =
          (let c = (max 0 (min (fst (grid_dimensions s) - 1) (fst (current_location s) + (int j - 2))),
                    max 0 (min (snd (grid_dimensions s) - 1) (snd (current_location s) + (int i - 2))))
           in if c \<in> set (redspots s) then 1 else if c = goal s then 2 else 0))
   \<and> drop 25 (get_observation s) =
        [of_int (fst (current_location s)), of_int (snd (current_location s)),
         of_int (fst (goal s)), of_int (snd (goal s))]
   \<and> (\<forall>s' obs. reset s = Inr (s', obs) \<longrightarrow> obs = get_observation s' \<and> length obs = 29)
   \<and> (\<forall>a s' obs r d i. step s a = Inr (s', obs, r, d, i)
         \<longrightarrow> obs = get_observation s' \<and> length obs = 29)"
proof (intro conjI allI impI)
  show "length (get_observation s) = 29" by (rule length_get_observation)
next
  fix i j :: nat
  assume i: "i < 5" and j: "j < 5"
  let ?f = "\<lambda>dy dx.
        cell_color s (max 0 (min (fst (grid_dimensions s) - 1) (fst (current_location s) + dx)),
                      max 0 (min (snd (grid_dimensions s) - 1) (snd (current_location s) + dy)))"
  let ?colors = "concat (map (\<lambda>dy. map (?f dy) [-2..2]) [-2..2])"
  have idx: "5 * i + j < length ?colors" using i j by (simp only: length_colors)
  have "get_observation s ! (5 * i + j) = ?colors ! (5 * i + j)"
    unfolding get_observation_split using idx by (simp only: nth_append if_True)
  also have "\<dots> = ?colors ! (length [-2..2::int] * i + j)" by (simp only: length_window)
  also have "\<dots> = ?f ([-2..2] ! i) ([-2..2] ! j)"
    by (rule concat_map_nth) (simp_all only: length_window i j)
  also have "\<dots> = ?f (int i - 2) (int j - 2)" by (simp only: nth_window [OF i] nth_window [OF j])
  finally show "get_observation s ! (5 * i + j) =
          (let c = (max 0 (min (fst (grid_dimensions s) - 1) (fst (current_location s) + (int j - 2))),
                    max 0 (min (snd (grid_dimensions s) - 1) (snd (current_location s) + (int i - 2))))
           in if c \<in> set (redspots s) then 1 else if c = goal s then 2 else 0)"
    by (simp add: cell_color_def Let_def)
next
  show "drop 25 (get_observation s) =
        [of_int (fst (current_location s)), of_int (snd (current_location s)),
         of_int (fst (goal s)), of_int (snd (goal s))]"
    unfolding get_observation_split
    by (rule drop_length_append [where xs = "concat (map (\<lambda>y. map (f y) [-2..2::int]) [-2..2::int])" for f,
          unfolded length_colors])
next
  fix s' obs assume "reset s = Inr (s', obs)"
  then show "obs = get_observation s'" by (auto simp: reset_def Let_def case_prod_beta)
next
  fix s' obs assume "reset s = Inr (s', obs)"
  then have "obs = get_observation s'" by (auto simp: reset_def Let_def case_prod_beta)
  then show "length obs = 29" by (simp only: length_get_observation)
next
  fix a s' obs r d i assume "step s a = Inr (s', obs, r, d, i)"
  then show "obs = get_observation s'" by (rule step_unfold(2))
next
  fix a s' obs r d i assume "step s a = Inr (s', obs, r, d, i)"
  then have "obs = get_observation s'" by (rule step_unfold(2))
  then show "length obs = 29" by (simp only: length_get_observation)
qed

theorem get_observation_layout_witness:
  "length (get_observation (example_env (5, 5) [(2, 2)] (4, 4) (0, 0))) = 29
   \<and> (4::nat) < 5
   \<and> get_observation (example_env (5, 5) [(2, 2)] (4, 4) (0, 0)) ! (5 * 4 + 4) = 1
   \<and> (0::nat) < 5
   \<and> get_observation (example_env (5, 5) [(2, 2)] (4, 4) (0, 0)) ! (5 * 0 + 0) = 0
   \<and> get_observation (example_env (5, 5) [(2, 2)] (4, 4) (3, 4)) ! (5 * 2 + 3) = 2
   \<and> (\<exists>s' obs. reset (example_env (5, 5) [(2, 2)] (4, 4) (0, 0)) = Inr (s', obs) \<and> length obs = 29)
   \<and> (\<exists>s' obs r d i. step (example_env (5, 5) [(2, 2)] (4, 4) (0, 0)) LEFT = Inr (s', obs, r, d, i)
         \<and> length obs = 29)"
proof -
  let ?e = "example_env (5, 5) [(2, 2)] (4, 4) (0, 0)"
  let ?e2 = "example_env (5, 5) [(2, 2)] (4, 4) (3, 4)"
  note L = get_observation_layout [of ?e]
  note L2 = get_observation_layout [of ?e2]
  from L have len: "length (get_observation ?e) = 29" by blast
  from L [THEN conjunct2, THEN conjunct1, rule_format, of 4 4]
    L [THEN conjunct2, THEN conjunct1, rule_format, of 0 0]
  have "get_observation ?e ! (5 * 4 + 4) = 1 \<and> get_observation ?e ! (5 * 0 + 0) = 0"
    by (simp add: example_env_def)
  moreover from L2 [THEN conjunct2, THEN conjunct1, rule_format, of 2 3]
  have "get_observation ?e2 ! (5 * 2 + 3) = 2"
    by (simp add: example_env_def)
  moreover obtain s1 o1 where r1: "reset ?e = Inr (s1, o1)"
    by (simp add: reset_def Let_def case_prod_beta)
  moreover from L r1 have "length o1 = 29" by blast
  moreover obtain s' obs r d i where st: "step ?e LEFT = Inr (s', obs, r, d, i)"
    using step_returns by blast
  moreover from L st have "length obs = 29" by blast
  ultimately show ?thesis using len by auto
qed

subsection \<open>Reset\<close>

text \<open>
  Claim C9. Calling \<^verbatim>\<open>reset\<close> twice in a row returns the same observation both
  times; after each call the step counter is \<open>0\<close> and the position (both
  \<^verbatim>\<open>current_location\<close> and \<^verbatim>\<open>self.x, self.y\<close>) is \<^verbatim>\<open>init_loc\<close>, which
  \<^verbatim>\<open>reset\<close> leaves unchanged.
\<close>

theorem reset_twice:
  "\<exists>s1 o1 s2 o2.
      reset s = Inr (s1, o1) \<and> reset s1 = Inr (s2, o2)
    \<and> o1 = o2
    \<and> total_steps s1 = 0 \<and> total_steps s2 = 0
    \<and> current_location s1 = init_loc s \<and> (self_x s1, self_y s1) = init_loc s
    \<and> current_location s2 = init_loc s \<and> (self_x s2, self_y s2) = init_loc s
    \<and> init_loc s1 = init_loc s"
  by (simp add: reset_def Let_def case_prod_beta)

subsection \<open>World generation\<close>

lemma randint_range:
  assumes "randint a b draws = Some (Inr (v, rest))"
  shows "a \<le> v \<and> v \<le> b"
proof -
  from assms obtain d where ab: "a \<le> b" and v: "v = a + int (d mod nat (b - a + 1))"
    by (auto simp: randint_def split: if_splits list.splits)
  from ab have "d mod nat (b - a + 1) < nat (b - a + 1)" by simp
  with ab have "int (d mod nat (b - a + 1)) \<le> b - a" by linarith
  with v show ?thesis by simp
qed

lemma randint_cell:
  assumes "randint 0 (fst dims - 1) draws = Some (Inr (x, draws1))"
    and "randint 0 (snd dims - 1) draws1 = Some (Inr (y, draws2))"
  shows "cell_within dims (x, y)"
  using randint_range [OF assms(1)] randint_range [OF assms(2)]
  by (simp add: cell_within_def)

lemma gen_obstacles_layout:
  assumes "gen_obstacles dims n spots draws = Some (Inr (spots', rest))"
    and "distinct spots" and "\<forall>c \<in> set spots. cell_within dims c"
  shows "distinct spots' \<and> (\<forall>c \<in> set spots'. cell_within dims c)"
  using assms
proof (induction dims n spots draws rule: gen_obstacles.induct)
  case (1 dims n spots draws)
  show ?case
  proof (cases "int (length spots) < n")
    case False
    with "1.prems"(1) have "spots' = spots"
      by (simp add: gen_obstacles.simps [of dims n spots draws])
    with "1.prems" show ?thesis by simp
  next
    case True
    with "1.prems"(1) obtain x draws1 y draws2
      where rx: "randint 0 (fst dims - 1) draws = Some (Inr (x, draws1))"
        and ry: "randint 0 (snd dims - 1) draws1 = Some (Inr (y, draws2))"
        and rec: "gen_obstacles dims n (if (x, y) \<notin> set spots then spots @ [(x, y)] else spots) draws2
                    = Some (Inr (spots', rest))"
      by (auto simp: gen_obstacles.simps [of dims n spots draws] split: option.splits sum.splits)
    let ?spots = "if (x, y) \<notin> set spots then spots @ [(x, y)] else spots"
    have d: "distinct ?spots" using "1.prems"(2) by simp
    have w: "\<forall>c \<in> set ?spots. cell_within dims c"
      using "1.prems"(3) randint_cell [OF rx ry] by simp
    from "1.IH" [OF True rx refl refl ry refl refl rec d w] show ?thesis .
  qed
qed

lemma gen_goal_layout:
  assumes "gen_goal dims spots draws = Some (Inr (g, rest))"
  shows "g \<notin> set spots \<and> cell_within dims g"
  using assms
proof (induction dims spots draws rule: gen_goal.induct)
  case (1 dims spots draws)
  from "1.prems" obtain x draws1 y draws2
    where rx: "randint 0 (fst dims - 1) draws = Some (Inr (x, draws1))"
      and ry: "randint 0 (snd dims - 1) draws1 = Some (Inr (y, draws2))"
      and res: "(if (x, y) \<notin> set spots then Some (Inr ((x, y), draws2))
                 else gen_goal dims spots draws2) = Some (Inr (g, rest))"
    by (auto simp: gen_goal.simps [of dims spots draws] split: option.splits sum.splits)
  show ?case
  proof (cases "(x, y) \<notin> set spots")
    case True
    with res have "g = (x, y)" by simp
    with True randint_cell [OF rx ry] show ?thesis by simp
  next
    case False
    with res have rec: "gen_goal dims spots draws2 = Some (Inr (g, rest))" by simp
    from "1.IH" [OF rx refl refl ry refl refl False rec] show ?thesis .
  qed
qed

lemma gen_agent_layout:
  assumes "gen_agent dims spots g draws = Some (Inr (a, rest))"
  shows "a \<notin> set spots \<and> a \<noteq> g \<and> cell_within dims a"
  using assms
proof (induction dims spots g draws rule: gen_agent.induct)
  case (1 dims spots g draws)
  from "1.prems" obtain x draws1 y draws2
    where rx: "randint 0 (fst dims - 1) draws = Some (Inr (x, draws1))"
      and ry: "randint 0 (snd dims - 1) draws1 = Some (Inr (y, draws2))"
      and res: "(if (x, y) \<notin> set spots \<and> (x, y) \<noteq> g then Some (Inr ((x, y), draws2))
                 else gen_agent dims spots g draws2) = Some (Inr (a, rest))"
    by (auto simp: gen_agent.simps [of dims spots g draws] split: option.splits sum.splits)
  show ?case
  proof (cases "(x, y) \<notin> set spots \<and> (x, y) \<noteq> g")
    case True
    with res have "a = (x, y)" by simp
    with True randint_cell [OF rx ry] show ?thesis by simp
  next
    case False
    with res have rec: "gen_agent dims spots g draws2 = Some (Inr (a, rest))" by simp
    from "1.IH" [OF rx refl refl ry refl refl False rec] show ?thesis .
  qed
qed

text \<open>
  Claim C7. For every layout that grid-mode world generation produces, on any draws
  (hence any seed): the obstacle cells are pairwise distinct, the goal is not an
  obstacle, the agent's start is not an obstacle and differs from the goal, and all
  obstacle, goal and start coordinates lie in \<open>[0, width) \<times> [0, height)\<close>. The agent is
  placed on its start.
\<close>

theorem initialize_grid_environment_layout:
  assumes "initialize_grid_environment s draws = Some (Inr (s', rest))"
  shows "distinct (redspots s')
       \<and> goal s' \<notin> set (redspots s')
       \<and> init_loc s' \<notin> set (redspots s')
       \<and> init_loc s' \<noteq> goal s'
       \<and> (\<forall>c \<in> set (redspots s'). in_bounds s' c)
       \<and> in_bounds s' (goal s') \<and> in_bounds s' (init_loc s')
       \<and> current_location s' = init_loc s' \<and> (self_x s', self_y s') = init_loc s'
       \<and> grid_dimensions s' = grid_dimensions s"
proof -
  from assms obtain n draws1 spots draws2 g draws3 a
    where obs: "gen_obstacles (grid_dimensions s) n [] draws1 = Some (Inr (spots, draws2))"
      and gl: "gen_goal (grid_dimensions s) spots draws2 = Some (Inr (g, draws3))"
      and ag: "gen_agent (grid_dimensions s) spots g draws3 = Some (Inr (a, rest))"
      and s': "s' = s\<lparr>redspots := spots, goal := g, self_x := fst a, self_y := snd a,
                      init_loc := a, current_location := a\<rparr>"
    by (auto simp: initialize_grid_environment_def split: option.splits sum.splits prod.splits)
  from gen_obstacles_layout [OF obs]
  have o: "distinct spots \<and> (\<forall>c \<in> set spots. cell_within (grid_dimensions s) c)" by simp
  note g = gen_goal_layout [OF gl]
  note a = gen_agent_layout [OF ag]
  from o g a show ?thesis
    unfolding s' by (simp add: in_bounds_def cell_within_def)
qed

theorem initialize_grid_environment_layout_witness:
  "initialize_grid_environment (example_env (40, 40) [] (0, 0) (0, 0)) example_draws
     = Some (Inr (generated_env, [99]))
   \<and> length (redspots generated_env) = 25 \<and> distinct (redspots generated_env)
   \<and> goal generated_env = (38, 39) \<and> goal generated_env \<notin> set (redspots generated_env)
   \<and> init_loc generated_env = (1, 2) \<and> init_loc generated_env \<notin> set (redspots generated_env)
   \<and> init_loc generated_env \<noteq> goal generated_env
   \<and> in_bounds generated_env (goal generated_env)
   \<and> in_bounds generated_env (init_loc generated_env)"
proof -
  from initialize_grid_environment_layout [OF generated_env_generated]
  have "distinct (redspots generated_env)
     \<and> goal generated_env \<notin> set (redspots generated_env)
     \<and> init_loc generated_env \<notin> set (redspots generated_env)
     \<and> init_loc generated_env \<noteq> goal generated_env
     \<and> in_bounds generated_env (goal generated_env)
     \<and> in_bounds generated_env (init_loc generated_env)"
    by blast
  moreover have "length (redspots generated_env) = 25 \<and> goal generated_env = (38, 39)
     \<and> init_loc generated_env = (1, 2)"
    by (simp add: generated_env_def example_env_def)
  ultimately show ?thesis using generated_env_generated by blast
qed

subsection \<open>Bezier curve through two points\<close>

lemma bezier_segment:
  assumes "length q0 = 4" "length q1 = 4"
  shows "bezier_recursive z (segment q0 q1) t = [t, 0, z]"
proof -
  have len: "length (segment q0 q1) = 14" using assms by (simp add: segment_def)
  have r: "[0..<2] = [0, 1 :: nat]" by (simp add: upt_rec)
  have c0: "take 3 (segment q0 q1) = [0, 0, 0]" by (simp add: segment_def)
  have c1: "take 3 (drop 7 (segment q0 q1)) = [1, 0, 0]"
    using assms by (simp add: segment_def)
  show ?thesis
    unfolding bezier_recursive_def len
    by (simp add: bezier_term_def Let_def r c0 c1 comb_def)
qed

lemma norm3_x: "norm3 [a, 0, 0] = \<bar>a\<bar>"
  by (simp add: norm3_def)

lemma length_fold_segment:
  assumes q: "length q0 = 4" "length q1 = 4" and n: "0 < n" and k: "k \<le> n"
  shows "fold (length_term z (segment q0 q1) n) [1..<k + 1] (0, [0, 0, z])
           = (real k / real n, [real k / real n, 0, z])"
  using k
proof (induction k)
  case 0
  show ?case by simp
next
  case (Suc k)
  then have IH: "fold (length_term z (segment q0 q1) n) [1..<k + 1] (0, [0, 0, z])
           = (real k / real n, [real k / real n, 0, z])" by simp
  have "[1..<Suc k + 1] = [1..<k + 1] @ [Suc k]" by simp
  then have "fold (length_term z (segment q0 q1) n) [1..<Suc k + 1] (0, [0, 0, z])
      = length_term z (segment q0 q1) n (Suc k) (real k / real n, [real k / real n, 0, z])"
    by (simp only: fold_append comp_apply IH fold_simps)
  also have "\<dots> = (real k / real n + norm3 [real (Suc k) / real n - real k / real n, 0, 0],
                     [real (Suc k) / real n, 0, z])"
    by (simp add: length_term_def bezier_segment [OF q])
  also have "real (Suc k) / real n - real k / real n = 1 / real n"
    by (simp add: add_divide_distrib)
  also have "real k / real n + norm3 [1 / real n, 0, 0] = real (Suc k) / real n"
    using n by (simp add: norm3_x add_divide_distrib)
  finally show ?case .
qed

lemma total_length_segment:
  assumes "length q0 = 4" "length q1 = 4" "0 < n"
  shows "calculate_total_length z (segment q0 q1) n = 1"
  using length_fold_segment [OF assms order_refl, of z] assms(3)
  by (simp add: calculate_total_length_def bezier_segment [OF assms(1,2)])

lemma bezier_term_length:
  assumes "i < length ctrlPts div 7" "length (fst acc) = 3"
  shows "length (fst (bezier_term ctrlPts t n i acc)) = 3"
proof -
  from assms(1) have "i * 7 + 3 \<le> length ctrlPts" by simp
  then have "length (take 3 (drop (i * 7) ctrlPts)) = 3" by simp
  with assms(2) show ?thesis
    by (simp add: bezier_term_def Let_def case_prod_beta)
qed

lemma fold_bezier_term_length:
  assumes "\<forall>i \<in> set ks. i < length ctrlPts div 7" "length (fst acc) = 3"
  shows "length (fst (fold (bezier_term ctrlPts t n) ks acc)) = 3"
  using assms
proof (induction ks arbitrary: acc)
  case Nil
  then show ?case by simp
next
  case (Cons k ks)
  from Cons.prems have "length (fst (bezier_term ctrlPts t n k acc)) = 3"
    by (simp add: bezier_term_length)
  with Cons.IH [of "bezier_term ctrlPts t n k acc"] Cons.prems(1) show ?case by simp
qed

lemma bezier_range: "nat (int (length ctrlPts) div 7 - 1 + 1) = length ctrlPts div 7"
  by (simp add: zdiv_int [symmetric])

lemma bezier_recursive_z: "bezier_recursive z ctrlPts t ! 2 = z"
proof -
  let ?n = "int (length ctrlPts) div 7 - 1"
  let ?acc = "fold (bezier_term ctrlPts t ?n) [0..<nat (?n + 1)] ([0, 0, 0], 0)"
  have "length (fst ?acc) = 3"
    unfolding bezier_range by (rule fold_bezier_term_length) simp_all
  then show ?thesis
    by (simp add: bezier_recursive_def Let_def case_prod_beta)
qed

text \<open>
  Claim C8. For the curve with the two control points at \<open>(0, 0, 0)\<close> and \<open>(1, 0, 0)\<close>
  (any orientation entries), \<^verbatim>\<open>bezier_recursive\<close> at \<open>t = 0\<close> and at \<open>t = 1\<close> returns
  the \<open>x\<close> and \<open>y\<close> of the two end points with the initial height as \<open>z\<close>, hence the
  end points themselves when the initial height is \<open>0\<close>; \<^verbatim>\<open>calculate_total_length\<close>
  with 1000 subdivisions is \<open>1\<close>; and the \<open>z\<close> coordinate of every evaluated point, for
  any control points and any \<open>t\<close>, is the fixed initial height. In real arithmetic the
  equalities are exact.
\<close>

theorem bezier_two_points:
  "bezier_recursive z [0, 0, 0, a1, a2, a3, a4, 1, 0, 0, b1, b2, b3, b4] 0 = [0, 0, z]
   \<and> bezier_recursive z [0, 0, 0, a1, a2, a3, a4, 1, 0, 0, b1, b2, b3, b4] 1 = [1, 0, z]
   \<and> bezier_recursive 0 [0, 0, 0, a1, a2, a3, a4, 1, 0, 0, b1, b2, b3, b4] 0 = [0, 0, 0]
   \<and> bezier_recursive 0 [0, 0, 0, a1, a2, a3, a4, 1, 0, 0, b1, b2, b3, b4] 1 = [1, 0, 0]
   \<and> calculate_total_length z [0, 0, 0, a1, a2, a3, a4, 1, 0, 0, b1, b2, b3, b4] 1000 = 1
   \<and> bezier_recursive z ctrlPts t ! 2 = z"
proof -
  have s: "[0, 0, 0, a1, a2, a3, a4, 1, 0, 0, b1, b2, b3, b4] = segment [a1, a2, a3, a4] [b1, b2, b3, b4]"
    by (simp add: segment_def)
  have l: "length [a1, a2, a3, a4] = 4" "length [b1, b2, b3, b4] = 4" by simp_all
  show ?thesis
    unfolding s
    by (simp only: bezier_segment [OF l] total_length_segment [OF l] bezier_recursive_z)
qed

end
